theory Spec2Isabelle
  imports Complex_Main "HOL-Library.AList"
begin

section \<open>Data model of \<^verbatim>\<open>smarkov/markov.py\<close>\<close>

text \<open>
  Tokens are Python strings. A history key is the tuple of a buffer, here a list of
  tokens. A Python \<^verbatim>\<open>dict\<close> keeps its keys unique and in insertion order, so it is an
  association list whose updates go through \<^const>\<open>AList.update\<close> (overwrite in place,
  or append a new key at the end). The floats of the transition table are modelled as
  exact rationals: \<^verbatim>\<open>c * 1.0 / s\<close> is the quotient \<open>c / s\<close>.
\<close>

type_synonym token = string
type_synonym key = "token list"
type_synonym counts = "(key \<times> (token \<times> nat) list) list"
type_synonym table = "(key \<times> (token \<times> rat) list) list"

text \<open>
  Every failure of the source is an \<^verbatim>\<open>AssertionError\<close> (or an \<^verbatim>\<open>IndexError\<close> for an
  empty buffer); the constructors keep apart which statement raised it.
\<close>

datatype error =
    InvalidConfiguration
  | MissingNextToken
  | IndexError
  | UnknownHistoryKey
  | EmptyDistribution

record 'e Markov =
  order :: int
  start_symbol :: token
  end_symbol :: token
  tokenize :: "'e \<Rightarrow> token list"
  transitions :: table
  order_emissions :: "int option"

text \<open>
  \<^verbatim>\<open>defaultdict.__getitem__\<close>: a missing key is inserted with the default value, and
  the default is returned. The dictionary after the lookup is part of the result.
\<close>

definition dd_getitem :: "'v \<Rightarrow> ('k \<times> 'v) list \<Rightarrow> 'k \<Rightarrow> 'v \<times> ('k \<times> 'v) list" where
  "dd_getitem dflt d k =
     (case map_of d k of
        Some v \<Rightarrow> (v, d)
      | None \<Rightarrow> (dflt, d @ [(k, dflt)]))"

section \<open>The utilities module\<close>

text \<open>
  Modelled from the spec: \<^verbatim>\<open>utils.prefilled_buffer\<close> is not among the sources. The spec
  describes a fixed-capacity FIFO of the given length, every slot pre-filled with the
  sentinel.
\<close>

definition prefilled_buffer :: "token \<Rightarrow> nat \<Rightarrow> token list" where
  "prefilled_buffer filler len = replicate len filler"

text \<open>
  Modelled from the spec: the buffer's \<^verbatim>\<open>append\<close> is append-with-eviction-of-oldest.
  A buffer is created full and stays full, so every append evicts the oldest entry.
\<close>

definition buffer_append :: "token list \<Rightarrow> token \<Rightarrow> token list" where
  "buffer_append buf x = drop 1 (buf @ [x])"

text \<open>
  Modelled from the spec: \<^verbatim>\<open>utils.get_suffixes\<close> is not among the sources. The spec
  describes all trailing contiguous sub-sequences of the buffer, from length 1 to the
  buffer's full length; they are produced longest first.
\<close>

definition get_suffixes :: "token list \<Rightarrow> key list" where
  "get_suffixes buf = map (\<lambda>i. drop i buf) [0..<length buf]"

text \<open>
  \<^verbatim>\<open>utils.weighted_choice\<close> draws from the global random source. It is a parameter of
  the model: a function from the state of the random source and the items of a
  distribution to the drawn outcome (\<open>None\<close> when the primitive rejects the
  distribution) and the next state of the random source.
\<close>

type_synonym 'g weighted_choice = "'g \<Rightarrow> (token \<times> rat) list \<Rightarrow> token option \<times> 'g"

section \<open>Training\<close>

text \<open>\<^verbatim>\<open>chain(tokens, self._end_symbol)\<close> iterates the tokens and then the characters
  of the end symbol, each a string of length one.\<close>

definition chain_end :: "token list \<Rightarrow> token \<Rightarrow> token list" where
  "chain_end tokens end_sym = tokens @ map (\<lambda>c. [c]) end_sym"

text \<open>\<^verbatim>\<open>self.transitions[suffix][token_value] += 1\<close> on the nested defaultdict.\<close>

definition record_transition :: "counts \<Rightarrow> key \<Rightarrow> token \<Rightarrow> counts" where
  "record_transition tr suffix token_value =
     (case dd_getitem [] tr suffix of (inner, tr1) \<Rightarrow>
        (case dd_getitem 0 inner token_value of (c, inner1) \<Rightarrow>
           AList.update suffix (AList.update token_value (c + 1) inner1) tr1))"

text \<open>The body of the loop over the emissions of one corpus entry: one increment per
  suffix of the buffer, then the emission enters the buffer.\<close>

definition count_emission :: "token \<Rightarrow> counts \<times> token list \<Rightarrow> counts \<times> token list" where
  "count_emission token_value st =
     (case st of (tr, last_tokens) \<Rightarrow>
        (fold (\<lambda>suffix tr'. record_transition tr' suffix token_value)
              (get_suffixes last_tokens) tr,
         buffer_append last_tokens token_value))"

text \<open>The body of the loop over the corpus.\<close>

definition count_entry :: "'e Markov \<Rightarrow> 'e \<Rightarrow> counts \<Rightarrow> counts" where
  "count_entry self corpus_entry tr =
     (let tokens = tokenize self corpus_entry;
          last_tokens = prefilled_buffer (start_symbol self) (nat (order self))
      in fst (fold count_emission (chain_end tokens (end_symbol self)) (tr, last_tokens)))"

definition count_corpus :: "'e Markov \<Rightarrow> 'e list \<Rightarrow> counts" where
  "count_corpus self corpus = fold (count_entry self) corpus []"

text \<open>
  \<^verbatim>\<open>_compute_relative_probs\<close>: every value of an inner dictionary is replaced by its
  quotient with the sum of the values, when that sum is positive. The inner loop
  assigns to each key once and the sum is taken before the loop.
\<close>

definition relative_probs :: "(token \<times> nat) list \<Rightarrow> (token \<times> rat) list" where
  "relative_probs transition_counts =
     (let summed_occurences = sum_list (map snd transition_counts)
      in if summed_occurences > 0
         then map (\<lambda>(token, c). (token, of_nat c * 1 / of_nat summed_occurences))
                  transition_counts
         else map (\<lambda>(token, c). (token, of_nat c)) transition_counts)"

definition compute_relative_probs :: "counts \<Rightarrow> table" where
  "compute_relative_probs prob_dict = map (\<lambda>(k, tc). (k, relative_probs tc)) prob_dict"

definition compute_transitions :: "'e Markov \<Rightarrow> 'e list \<Rightarrow> int \<Rightarrow> 'e Markov" where
  "compute_transitions self corpus ord =
     self\<lparr>transitions := compute_relative_probs (count_corpus self corpus)\<rparr>"

text \<open>The attributes \<^verbatim>\<open>Markov.__init__\<close> sets before it calls
  \<^verbatim>\<open>_compute_transitions\<close>; the class has no attribute \<^verbatim>\<open>order_emissions\<close>.\<close>

definition Markov_new :: "int \<Rightarrow> ('e \<Rightarrow> token list) \<Rightarrow> 'e Markov" where
  "Markov_new ord tok =
     \<lparr>order = ord, start_symbol = ''^'', end_symbol = ''$'',
      tokenize = tok, transitions = [], order_emissions = None\<rparr>"

text \<open>\<^verbatim>\<open>Markov.__init__\<close>; a null corpus is \<open>None\<close>.\<close>

definition Markov_init ::
  "'e list option \<Rightarrow> int \<Rightarrow> ('e \<Rightarrow> token list) \<Rightarrow> error + 'e Markov" where
  "Markov_init corpus ord tok =
     (if \<not> ord \<ge> 1 then Inl InvalidConfiguration
      else if \<not> ord \<le> 20 then Inl InvalidConfiguration
      else case corpus of
             None \<Rightarrow> Inl InvalidConfiguration
           | Some c \<Rightarrow>
Inr (compute_transitions (Markov_new ord tok) c ord))"

section \<open>Generation\<close>

text \<open>\<^verbatim>\<open>_generate_next_token_helper\<close>: the membership assertion, then the lookup in
  the defaultdict and the weighted draw over the items found.\<close>

definition generate_next_token_helper ::
  "'g weighted_choice \<Rightarrow> token list \<Rightarrow> table \<Rightarrow> 'g \<Rightarrow> (error + token) \<times> table \<times> 'g" where
  "generate_next_token_helper wc past_states tbl g =
     (let key = past_states
      in if map_of tbl key = None then (Inl UnknownHistoryKey, tbl, g)
         else case dd_getitem [] tbl key of (items, tbl') \<Rightarrow>
              (case wc g items of
                 (None, g') \<Rightarrow> (Inl EmptyDistribution, tbl', g')
               | (Some t, g') \<Rightarrow> (Inr t, tbl', g')))"

definition generate_next_token ::
  "'g weighted_choice \<Rightarrow> token list \<Rightarrow> 'e Markov \<Rightarrow> 'g \<Rightarrow> (error + token) \<times> 'e Markov \<times> 'g" where
  "generate_next_token wc past_states self g =
     (case generate_next_token_helper wc past_states (transitions self) g of
        (r, tbl', g') \<Rightarrow> (r, self\<lparr>transitions := tbl'\<rparr>, g'))"

text \<open>
  The \<^verbatim>\<open>while\<close> loop of \<^verbatim>\<open>_text_generator\<close>. Its state is the history buffer, the
  emissions buffer and the collected sequence; the model object and the random source
  are threaded through \<^verbatim>\<open>next_token\<close>. One pass tests the loop condition and runs
  the body: it ends the loop (\<open>Inl\<close>, with an error or with the final loop state) or
  hands the next configuration to the following pass (\<open>Inr\<close>).
\<close>

type_synonym loop_state = "token list \<times> token list \<times> token list"

type_synonym ('e, 'g) config = "loop_state \<times> 'e Markov \<times> 'g"

type_synonym ('e, 'g) next_token_fn =
  "token list \<Rightarrow> 'e Markov \<Rightarrow> 'g \<Rightarrow> (error + token) \<times> 'e Markov \<times> 'g"

type_synonym emit_fn = "token \<Rightarrow> token list \<Rightarrow> token list \<Rightarrow> token"

text \<open>The test before \<^verbatim>\<open>break\<close>:
  \<^verbatim>\<open>max_length is not None and max_length + 1 <= len(generated_tokens)\<close>.\<close>

definition cut_off :: "int option \<Rightarrow> token list \<Rightarrow> bool" where
  "cut_off max_length generated_tokens =
     (case max_length of
        None \<Rightarrow> False
      | Some m \<Rightarrow> m + 1 \<le> int (length generated_tokens))"

definition text_generator_step ::
  "('e, 'g) next_token_fn \<Rightarrow> emit_fn \<Rightarrow> int option \<Rightarrow> ('e, 'g) config
     \<Rightarrow> ((error + loop_state) \<times> 'e Markov \<times> 'g) + ('e, 'g) config" where
  "text_generator_step next_token emit max_length cfg =
     (case cfg of ((last_tokens, last_emissions, generated_tokens), self, g) \<Rightarrow>
        if last_tokens = [] then Inl (Inl IndexError, self, g)
        else if \<not> last last_tokens \<noteq> end_symbol self
        then Inl (Inr (last_tokens, last_emissions, generated_tokens), self, g)
        else
          (case next_token last_tokens self g of
             (Inl e, self', g') \<Rightarrow> Inl (Inl e, self', g')
           | (Inr new_token, self', g') \<Rightarrow>
              let emission = emit new_token last_tokens last_emissions;
                  last_emissions' = buffer_append last_emissions emission;
                  generated_tokens' = generated_tokens @ [emission];
                  last_tokens' = buffer_append last_tokens new_token;
                  st' = (last_tokens', last_emissions', generated_tokens')
              in if cut_off max_length generated_tokens'
                 then Inl (Inr st', self', g')
                 else Inr (st', self', g')))"

text \<open>The loop may run forever, which is the value \<open>None\<close>.\<close>

partial_function (option) text_generator_loop ::
  "('e, 'g) next_token_fn \<Rightarrow> emit_fn \<Rightarrow> int option \<Rightarrow> ('e, 'g) config
     \<Rightarrow> ((error + loop_state) \<times> 'e Markov \<times> 'g) option" where
  "text_generator_loop next_token emit max_length cfg =
     (case text_generator_step next_token emit max_length cfg of
        Inl r \<Rightarrow> Some r
      | Inr cfg' \<Rightarrow> text_generator_loop next_token emit max_length cfg')"

declare text_generator_loop.simps [code]

text \<open>The buffers and the empty collected sequence before the loop.\<close>

definition initial_state :: "'e Markov \<Rightarrow> loop_state" where
  "initial_state self =
     (let last_tokens = prefilled_buffer (start_symbol self) (nat (order self));
          oe = (case order_emissions self of Some n \<Rightarrow> n | None \<Rightarrow> order self);
          last_emissions = prefilled_buffer (start_symbol self) (nat oe)
      in (last_tokens, last_emissions, []))"

text \<open>\<^verbatim>\<open>_text_generator\<close>: the assertion on \<^verbatim>\<open>next_token\<close>, the two buffers, the loop
  and the slice \<^verbatim>\<open>generated_tokens[:-1]\<close>.\<close>

definition text_generator ::
  "('e, 'g) next_token_fn option \<Rightarrow> emit_fn \<Rightarrow> int option \<Rightarrow> 'e Markov \<Rightarrow> 'g
     \<Rightarrow> ((error + token list) \<times> 'e Markov \<times> 'g) option" where
  "text_generator next_token emit max_length self g =
     (case next_token of
        None \<Rightarrow> Some (Inl MissingNextToken, self, g)
      | Some nt \<Rightarrow>
          (case text_generator_loop nt emit max_length (initial_state self, self, g) of
             None \<Rightarrow> None
           | Some (Inl e, self', g') \<Rightarrow> Some (Inl e, self', g')
           | Some (Inr (lt, le, generated_tokens), self', g') \<Rightarrow>
               Some (Inr (butlast generated_tokens), self', g')))"

text \<open>The default \<^verbatim>\<open>emit\<close>, \<^verbatim>\<open>lambda x, _, __: x\<close>.\<close>

definition markovian_emit :: emit_fn where
  "markovian_emit x a b = x"

definition generate_text ::
  "'g weighted_choice \<Rightarrow> int option \<Rightarrow> 'e Markov \<Rightarrow> 'g
     \<Rightarrow> ((error + token list) \<times> 'e Markov \<times> 'g) option" where
  "generate_text wc max_length self g =
     text_generator (Some (generate_next_token wc)) markovian_emit max_length self g"

section \<open>Notions used to state the properties\<close>








text \<open>One pass of the generation loop that does not end it.\<close>

definition continues ::
  "('e, 'g) next_token_fn \<Rightarrow> emit_fn \<Rightarrow> int option \<Rightarrow> ('e, 'g) config \<Rightarrow> ('e, 'g) config
     \<Rightarrow> bool" where
  "continues next_token emit max_length cfg cfg' \<longleftrightarrow>
     text_generator_step next_token emit max_length cfg = Inr cfg'"

text \<open>The weighted-choice primitive only returns outcomes with positive weight.\<close>

definition positive_choice :: "'g weighted_choice \<Rightarrow> bool" where
  "positive_choice wc \<longleftrightarrow>
     (\<forall>g items t g'. wc g items = (Some t, g') \<longrightarrow> (\<exists>w. (t, w) \<in> set items \<and> 0 < w))"

section \<open>Concrete inputs\<close>

text \<open>A tokenizer that splits a string into its characters, a weighted choice that
  returns the first outcome of positive weight, and an emit transform that marks the
  token.\<close>

definition chars :: "string \<Rightarrow> token list" where
  "chars s = map (\<lambda>c. [c]) s"

definition choose_first :: "unit weighted_choice" where
  "choose_first g items =
     (case filter (\<lambda>(t, w). 0 < w) items of
        [] \<Rightarrow> (None, g)
      | (t, w) # rest \<Rightarrow> (Some t, g))"


definition example_corpus :: "string list" where
  "example_corpus = [''abc'', ''abd'']"

definition example_model :: "string Markov" where
  "example_model = compute_transitions (Markov_new 2 chars) example_corpus 2"

definition empty_model :: "string Markov" where
  "empty_model = compute_transitions (Markov_new 1 chars) [] 1"

section \<open>Dictionaries\<close>


























section \<open>Buffers and suffixes\<close>

lemma length_prefilled [simp]: "length (prefilled_buffer s n) = n"
  by (simp add: prefilled_buffer_def)

lemma length_buffer_append [simp]: "length (buffer_append buf x) = length buf"
  by (simp add: buffer_append_def)

lemma length_get_suffixes [simp]: "length (get_suffixes buf) = length buf"
  by (simp add: get_suffixes_def)







section \<open>Training: the increments of one corpus entry\<close>


section \<open>Normalisation and construction\<close>




lemma relative_probs_keys: "map fst (relative_probs tc) = map fst tc"
  by (simp add: relative_probs_def Let_def comp_def case_prod_unfold)


lemma Markov_init_Inr:
  "Markov_init (Some corpus) ord tok = Inr m \<Longrightarrow>
     1 \<le> ord \<and> ord \<le> 20 \<and> m = compute_transitions (Markov_new ord tok) corpus ord"
  by (auto simp: Markov_init_def split: if_splits)


lemma trained_fields:
  "order (compute_transitions (Markov_new ord tok) corpus ord') = ord"
  "start_symbol (compute_transitions (Markov_new ord tok) corpus ord') = ''^''"
  "end_symbol (compute_transitions (Markov_new ord tok) corpus ord') = ''$''"
  "tokenize (compute_transitions (Markov_new ord tok) corpus ord') = tok"
  "order_emissions (compute_transitions (Markov_new ord tok) corpus ord') = None"
  by (simp_all add: compute_transitions_def Markov_new_def)



text \<open>
  Claim C5. Construction fails, with \<open>InvalidConfiguration\<close>, exactly when the order is
  below 1, the order is above 20, or the corpus is null; in every other case, also for
  an empty corpus, it returns a model.
\<close>

theorem construction_fails_iff:
  "(Markov_init corpus ord tok = Inl InvalidConfiguration \<longleftrightarrow> ord < 1 \<or> 20 < ord \<or> corpus = None)
   \<and> ((\<exists>m. Markov_init corpus ord tok = Inr m) \<longleftrightarrow> 1 \<le> ord \<and> ord \<le> 20 \<and> corpus \<noteq> None)"
  by (auto simp: Markov_init_def split: option.splits)

theorem construction_fails_iff_witness:
  "Markov_init (Some example_corpus) 0 chars = Inl InvalidConfiguration
   \<and> Markov_init (Some example_corpus) 21 chars = Inl InvalidConfiguration
   \<and> Markov_init None 1 chars = Inl InvalidConfiguration
   \<and> (\<exists>m. Markov_init (Some example_corpus) 1 chars = Inr m)
   \<and> (\<exists>m. Markov_init (Some example_corpus) 20 chars = Inr m)
   \<and> (\<exists>m. Markov_init (Some []) 1 chars = Inr m)"
  using construction_fails_iff [of "Some example_corpus" 0 chars]
    construction_fails_iff [of "Some example_corpus" 21 chars]
    construction_fails_iff [of None 1 chars]
    construction_fails_iff [of "Some example_corpus" 1 chars]
    construction_fails_iff [of "Some example_corpus" 20 chars]
    construction_fails_iff [of "Some []" 1 chars]
  by simp



section \<open>The generation loop\<close>

lemma helper_absent:
  "map_of tbl key = None \<Longrightarrow>
     generate_next_token_helper wc key tbl g = (Inl UnknownHistoryKey, tbl, g)"
  by (simp add: generate_next_token_helper_def)

lemma helper_present:
  "map_of tbl key = Some items \<Longrightarrow>
     generate_next_token_helper wc key tbl g =
       (case wc g items of
          (None, g') \<Rightarrow> (Inl EmptyDistribution, tbl, g')
        | (Some t, g') \<Rightarrow> (Inr t, tbl, g'))"
  by (simp add: generate_next_token_helper_def dd_getitem_def)

lemma helper_table: "generate_next_token_helper wc key tbl g = (r, tbl', g') \<Longrightarrow> tbl' = tbl"
  by (cases "map_of tbl key")
     (auto simp: helper_absent helper_present split: prod.splits option.splits)

lemma next_token_frame: "generate_next_token wc past self g = (r, self', g') \<Longrightarrow> self' = self"
  by (auto simp: generate_next_token_def split: prod.splits dest: helper_table)

lemma next_token_absent:
  "map_of (transitions self) past = None \<Longrightarrow>
     generate_next_token wc past self g = (Inl UnknownHistoryKey, self, g)"
  by (simp add: generate_next_token_def helper_absent)

lemma next_token_present:
  "map_of (transitions self) past = Some items \<Longrightarrow>
     generate_next_token wc past self g =
       (case wc g items of
          (None, g') \<Rightarrow> (Inl EmptyDistribution, self, g')
        | (Some t, g') \<Rightarrow> (Inr t, self, g'))"
  by (simp add: generate_next_token_def helper_present split: prod.splits option.splits)

lemma step_Inr:
  assumes "text_generator_step nt emit ml ((lt, le, gs), self, g) = Inr cfg'"
  shows "lt \<noteq> [] \<and> last lt \<noteq> end_symbol self
    \<and> (\<exists>t self' g'. nt lt self g = (Inr t, self', g')
          \<and> cfg' = ((buffer_append lt t, buffer_append le (emit t lt le), gs @ [emit t lt le]), self', g')
          \<and> \<not> cut_off ml (gs @ [emit t lt le]))"
  using assms
  by (auto simp: text_generator_step_def Let_def split: if_splits prod.splits sum.splits)

lemma step_Inl:
  assumes "text_generator_step nt emit ml ((lt, le, gs), self, g) = Inl r"
  shows "(lt = [] \<and> r = (Inl IndexError, self, g))
    \<or> (lt \<noteq> [] \<and> last lt = end_symbol self \<and> r = (Inr (lt, le, gs), self, g))
    \<or> (lt \<noteq> [] \<and> last lt \<noteq> end_symbol self
         \<and> (\<exists>e self' g'. nt lt self g = (Inl e, self', g') \<and> r = (Inl e, self', g')))
    \<or> (lt \<noteq> [] \<and> last lt \<noteq> end_symbol self
         \<and> (\<exists>t self' g'. nt lt self g = (Inr t, self', g')
               \<and> r = (Inr (buffer_append lt t, buffer_append le (emit t lt le), gs @ [emit t lt le]), self', g')
               \<and> cut_off ml (gs @ [emit t lt le])))"
  using assms
  by (auto simp: text_generator_step_def Let_def split: if_splits prod.splits sum.splits)


lemma loop_Inl:
  "text_generator_step nt emit ml c = Inl r \<Longrightarrow> text_generator_loop nt emit ml c = Some r"
  by (subst text_generator_loop.simps) simp

lemma loop_Inr:
  "text_generator_step nt emit ml c = Inr c' \<Longrightarrow>
     text_generator_loop nt emit ml c = text_generator_loop nt emit ml c'"
  by (subst text_generator_loop.simps) simp

lemma loop_reach:
  "rtranclp (continues nt emit ml) c c' \<Longrightarrow>
     text_generator_loop nt emit ml c = text_generator_loop nt emit ml c'"
  by (induction rule: rtranclp_induct) (simp_all add: continues_def loop_Inr)

lemma loop_rule:
  assumes run: "text_generator_loop nt emit ml cfg = Some res"
    and init: "I cfg"
    and step: "\<And>c c'. I c \<Longrightarrow> text_generator_step nt emit ml c = Inr c' \<Longrightarrow> I c'"
    and fin: "\<And>c r. I c \<Longrightarrow> text_generator_step nt emit ml c = Inl r \<Longrightarrow> Q r"
  shows "Q res"
proof -
  have "nt = nt \<and> emit = emit \<and> ml = ml \<longrightarrow> I cfg \<longrightarrow> Q res"
  proof (rule text_generator_loop.raw_induct [where
        P = "\<lambda>nt' emit' ml' c y. nt' = nt \<and> emit' = emit \<and> ml' = ml \<longrightarrow> I c \<longrightarrow> Q y",
        OF _ run], goal_cases)
    case (1 f nt' emit' ml' c y)
    show ?case
    proof (intro impI)
      assume eq: "nt' = nt \<and> emit' = emit \<and> ml' = ml" and Ic: "I c"
      show "Q y"
      proof (cases "text_generator_step nt emit ml c")
        case (Inl r)
        with 1(2) eq have "y = r" by simp
        with fin [OF Ic Inl] show ?thesis by simp
      next
        case (Inr c')
        with 1(2) eq have "f nt emit ml c' = Some y" by simp
        from 1(1) [OF this] eq step [OF Ic Inr] show ?thesis by simp
      qed
    qed
  qed
  with init show ?thesis by simp
qed


section \<open>Generation: the model is only read\<close>

lemma text_generator_Some:
  "text_generator (Some nt) emit ml self g =
     (case text_generator_loop nt emit ml (initial_state self, self, g) of
        None \<Rightarrow> None
      | Some (Inl e, self', g') \<Rightarrow> Some (Inl e, self', g')
      | Some (Inr (lt, le, gs), self', g') \<Rightarrow> Some (Inr (butlast gs), self', g'))"
  by (simp add: text_generator_def)

lemma generate_text_result:
  assumes "generate_text wc ml self g = Some (r, self', g')"
  shows "\<exists>res. text_generator_loop (generate_next_token wc) markovian_emit ml
                 (initial_state self, self, g) = Some (res, self', g')
          \<and> r = map_sum id (\<lambda>(lt, le, gs). butlast gs) res"
  using assms
  by (auto simp: generate_text_def text_generator_Some split: option.splits sum.splits)

lemma step_frame:
  "text_generator_step (generate_next_token wc) emit ml (st, self, g) = Inr (st', self', g')
     \<Longrightarrow> self' = self"
  "text_generator_step (generate_next_token wc) emit ml (st, self, g) = Inl (r, self', g')
     \<Longrightarrow> self' = self"
proof -
  obtain lt le gs where st: "st = (lt, le, gs)" by (cases st)
  show "text_generator_step (generate_next_token wc) emit ml (st, self, g) = Inr (st', self', g')
     \<Longrightarrow> self' = self"
    unfolding st by (auto dest!: step_Inr dest: next_token_frame)
  show "text_generator_step (generate_next_token wc) emit ml (st, self, g) = Inl (r, self', g')
     \<Longrightarrow> self' = self"
    unfolding st by (auto dest!: step_Inl dest: next_token_frame)
qed

lemma loop_frame:
  assumes "text_generator_loop (generate_next_token wc) emit ml (st, self, g) = Some (r, self', g')"
  shows "self' = self"
proof -
  have "snd (snd (r, self', g')) = snd (snd (r, self', g')) \<and> fst (snd (r, self', g')) = self"
  proof (rule loop_rule [OF assms, where I = "\<lambda>c. fst (snd c) = self"
        and Q = "\<lambda>res. snd (snd res) = snd (snd res) \<and> fst (snd res) = self"])
    show "fst (snd (st, self, g)) = self" by simp
  next
    fix c c' :: "(loop_state \<times> 'a Markov \<times> 'b)"
    assume "fst (snd c) = self"
      and "text_generator_step (generate_next_token wc) emit ml c = Inr c'"
    then show "fst (snd c') = self"
      by (cases c, cases c') (auto dest: step_frame(1))
  next
    fix c :: "(loop_state \<times> 'a Markov \<times> 'b)" and res
    assume "fst (snd c) = self"
      and "text_generator_step (generate_next_token wc) emit ml c = Inl res"
    then show "snd (snd res) = snd (snd res) \<and> fst (snd res) = self"
      by (cases c, cases res) (auto dest: step_frame(2))
  qed
  then show ?thesis by simp
qed

text \<open>
  Claim C9. A generation call never changes the model: when \<^verbatim>\<open>generate_text\<close> finishes,
  with a sequence or with an error and for any \<^verbatim>\<open>max_length\<close>, the model object is the
  one it was called on, with the same order, sentinels, tokenizer and transition table.
  The lookup in the defaultdict is only made for a key that is present, so it inserts
  nothing.
\<close>

theorem generation_leaves_model_unchanged:
  assumes "generate_text wc max_length self g = Some (r, self', g')"
  shows "self' = self
    \<and> order self' = order self \<and> start_symbol self' = start_symbol self
    \<and> end_symbol self' = end_symbol self \<and> tokenize self' = tokenize self
    \<and> transitions self' = transitions self"
proof -
  from generate_text_result [OF assms] obtain res where
    "text_generator_loop (generate_next_token wc) markovian_emit max_length
       (initial_state self, self, g) = Some (res, self', g')"
    by blast
  then have "self' = self" by (rule loop_frame)
  then show ?thesis by simp
qed

lemma example_run:
  "map_option fst (generate_text choose_first None example_model ()) = Some (Inr [''a'', ''b'', ''c''])"
  by code_simp

theorem generation_leaves_model_unchanged_witness:
  "generate_text choose_first None example_model () = Some (Inr [''a'', ''b'', ''c''], example_model, ())"
proof -
  from example_run obtain r self' g' where
    run: "generate_text choose_first None example_model () = Some (r, self', g')"
    and r: "r = Inr [''a'', ''b'', ''c'']"
    by auto
  from generation_leaves_model_unchanged [OF run] have "self' = example_model" by simp
  with run r show ?thesis by simp
qed

section \<open>Generation: the length cap\<close>









section \<open>Generation: what is collected\<close>

lemma last_buffer_append: "buf \<noteq> [] \<Longrightarrow> last (buffer_append buf x) = x"
  by (cases buf) (simp_all add: buffer_append_def)

lemma buffer_append_nonempty: "buf \<noteq> [] \<Longrightarrow> buffer_append buf x \<noteq> []"
  by (cases buf) (simp_all add: buffer_append_def)






section \<open>Generation: the trailing element\<close>

lemma Markov_init_fields:
  assumes "Markov_init corpus ord tok = Inr self"
  shows "1 \<le> ord \<and> ord \<le> 20 \<and> order self = ord \<and> start_symbol self = ''^''
    \<and> end_symbol self = ''$'' \<and> order_emissions self = None
    \<and> (\<exists>c. corpus = Some c \<and> self = compute_transitions (Markov_new ord tok) c ord)"
proof -
  from assms obtain c where c: "corpus = Some c"
    by (cases corpus) (auto simp: Markov_init_def split: if_splits)
  from assms [unfolded c] have "1 \<le> ord \<and> ord \<le> 20
      \<and> self = compute_transitions (Markov_new ord tok) c ord"
    by (rule Markov_init_Inr)
  then show ?thesis by (simp add: c trained_fields)
qed

lemma initial_state_trained:
  assumes "Markov_init corpus ord tok = Inr self"
  shows "initial_state self
     = (prefilled_buffer ''^'' (nat ord), prefilled_buffer ''^'' (nat ord), [])"
  using Markov_init_fields [OF assms] by (simp add: initial_state_def)

lemma prefilled_last: "0 < n \<Longrightarrow> prefilled_buffer s n \<noteq> [] \<and> last (prefilled_buffer s n) = s"
  by (cases n) (simp_all add: prefilled_buffer_def)

lemma markovian_loop_result:
  assumes run: "text_generator_loop (generate_next_token wc) markovian_emit ml
                  ((lt0, le0, []), self, g) = Some (Inr (lt, le, gs), self', g')"
    and ne: "lt0 \<noteq> []" and start: "last lt0 \<noteq> end_symbol self"
  shows "gs \<noteq> [] \<and> last gs = last lt \<and> (last lt = end_symbol self \<or> cut_off ml gs)"
proof -
  define I :: "(loop_state \<times> 'a Markov \<times> 'b) \<Rightarrow> bool" where
    "I = (\<lambda>c. fst (snd c) = self \<and> fst (fst c) \<noteq> []
            \<and> (snd (snd (fst c)) = [] \<longrightarrow> last (fst (fst c)) \<noteq> end_symbol self)
            \<and> (snd (snd (fst c)) \<noteq> [] \<longrightarrow> last (snd (snd (fst c))) = last (fst (fst c))))"
  define Q :: "((error + loop_state) \<times> 'a Markov \<times> 'b) \<Rightarrow> bool" where
    "Q = (\<lambda>res. \<forall>a b c. fst res = Inr (a, b, c) \<longrightarrow>
            c \<noteq> [] \<and> last c = last a \<and> (last a = end_symbol self \<or> cut_off ml c))"
  have "Q (Inr (lt, le, gs), self', g')"
  proof (rule loop_rule [OF run, where I = I and Q = Q])
    show "I ((lt0, le0, []), self, g)" using ne start by (simp add: I_def)
  next
    fix c c' :: "(loop_state \<times> 'a Markov \<times> 'b)"
    assume Ic: "I c" and s: "text_generator_step (generate_next_token wc) markovian_emit ml c = Inr c'"
    obtain a b d s0 g0 where c: "c = ((a, b, d), s0, g0)" by (cases c) auto
    from step_Inr [OF s [unfolded c]] obtain t s1 g1 where
      nt: "generate_next_token wc a s0 g0 = (Inr t, s1, g1)"
      and c': "c' = ((buffer_append a t, buffer_append b (markovian_emit t a b),
                      d @ [markovian_emit t a b]), s1, g1)"
      by blast
    from next_token_frame [OF nt] have "s1 = s0" .
    with Ic c show "I c'"
      by (simp add: I_def c' markovian_emit_def last_buffer_append buffer_append_nonempty)
  next
    fix c :: "(loop_state \<times> 'a Markov \<times> 'b)" and res
    assume Ic: "I c" and s: "text_generator_step (generate_next_token wc) markovian_emit ml c = Inl res"
    obtain a b d s0 g0 where c: "c = ((a, b, d), s0, g0)" by (cases c) auto
    from step_Inl [OF s [unfolded c]] Ic c show "Q res"
      by (auto simp: I_def Q_def markovian_emit_def last_buffer_append)
  qed
  then show ?thesis by (simp add: Q_def)
qed

text \<open>
  Claim C2. For a model built by the constructor, whenever \<^verbatim>\<open>generate_text\<close> returns a
  sequence, the loop has collected a non-empty sequence \<open>gs\<close> and the returned sequence is
  \<open>gs\<close> without its final element, whatever made the loop stop. The element dropped is the
  last element of the history buffer, that is the token generated last: it is the end
  sentinel when the loop stopped on the sentinel, and otherwise the loop stopped because
  \<^verbatim>\<open>max_length + 1\<close> elements had been collected.
\<close>

theorem returned_sequence_drops_last:
  assumes init: "Markov_init corpus ord tok = Inr self"
    and run: "generate_text wc ml self g = Some (Inr text, self', g')"
  shows "\<exists>lt le gs.
      text_generator_loop (generate_next_token wc) markovian_emit ml
        (initial_state self, self, g) = Some (Inr (lt, le, gs), self', g')
      \<and> gs \<noteq> [] \<and> text = butlast gs \<and> gs = text @ [last lt]
      \<and> (last lt = ''$'' \<or> (\<exists>m. ml = Some m \<and> m + 1 \<le> int (length gs)))"
proof -
  from Markov_init_fields [OF init] have ord: "1 \<le> ord" and e: "end_symbol self = ''$''"
    by simp_all
  have ist: "initial_state self
     = (prefilled_buffer ''^'' (nat ord), prefilled_buffer ''^'' (nat ord), [])"
    using init by (rule initial_state_trained)
  from generate_text_result [OF run] obtain res where
    loop: "text_generator_loop (generate_next_token wc) markovian_emit ml
             (initial_state self, self, g) = Some (res, self', g')"
    and r: "Inr text = map_sum id (\<lambda>(lt, le, gs). butlast gs) res"
    by blast
  from r obtain lt le gs where res: "res = Inr (lt, le, gs)" and tx: "text = butlast gs"
    by (cases res) auto
  from ord have p: "prefilled_buffer ''^'' (nat ord) \<noteq> []
      \<and> last (prefilled_buffer ''^'' (nat ord)) = ''^''"
    by (simp add: prefilled_last)
  from loop have loop': "text_generator_loop (generate_next_token wc) markovian_emit ml
      ((prefilled_buffer ''^'' (nat ord), prefilled_buffer ''^'' (nat ord), []), self, g)
      = Some (Inr (lt, le, gs), self', g')"
    by (simp add: ist res)
  have "gs \<noteq> [] \<and> last gs = last lt \<and> (last lt = end_symbol self \<or> cut_off ml gs)"
    by (rule markovian_loop_result [OF loop']) (simp_all add: p e)
  then have 1: "gs \<noteq> []" and 2: "last gs = last lt"
    and 3: "last lt = ''$'' \<or> cut_off ml gs"
    by (simp_all add: e)
  from 1 2 have 4: "gs = text @ [last lt]"
    using append_butlast_last_id [of gs] by (simp add: tx)
  from 3 have 5: "last lt = ''$'' \<or> (\<exists>m. ml = Some m \<and> m + 1 \<le> int (length gs))"
    by (auto simp: cut_off_def split: option.splits)
  from loop res 1 tx 4 5 show ?thesis by blast
qed

lemma capped_run_2:
  "map_option fst (generate_text choose_first (Some 1) example_model ()) = Some (Inr [''a''])"
  by code_simp

lemma example_init: "Markov_init (Some example_corpus) 2 chars = Inr example_model"
  by (simp add: Markov_init_def example_model_def)

theorem returned_sequence_drops_last_witness:
  "Markov_init (Some example_corpus) 2 chars = Inr example_model
   \<and> (\<exists>self' g'. generate_text choose_first (Some 1) example_model () = Some (Inr [''a''], self', g')
        \<and> (\<exists>lt le gs. text_generator_loop (generate_next_token choose_first) markovian_emit (Some 1)
               (initial_state example_model, example_model, ()) = Some (Inr (lt, le, gs), self', g')
             \<and> gs = [''a''] @ [last lt]))"
proof -
  from capped_run_2 obtain self' g' where
    run: "generate_text choose_first (Some 1) example_model () = Some (Inr [''a''], self', g')"
    by auto
  from returned_sequence_drops_last [OF example_init run] example_init run
  show ?thesis by blast
qed


section \<open>Generation: the lookup of the history key\<close>

lemma reach_frame:
  assumes "rtranclp (continues (generate_next_token wc) emit ml) c c'"
  shows "fst (snd c') = fst (snd c) \<and> length (fst (fst c')) = length (fst (fst c))"
  using assms
proof (induction rule: rtranclp_induct)
  case base
  show ?case by simp
next
  case (step y z)
  obtain a b d s0 g0 where y: "y = ((a, b, d), s0, g0)" by (cases y) auto
  from step.hyps(2) have "text_generator_step (generate_next_token wc) emit ml ((a, b, d), s0, g0) = Inr z"
    by (simp add: continues_def y)
  from step_Inr [OF this] obtain t s1 g1 where
    nt: "generate_next_token wc a s0 g0 = (Inr t, s1, g1)"
    and z: "z = ((buffer_append a t, buffer_append b (emit t a b), d @ [emit t a b]), s1, g1)"
    by blast
  from next_token_frame [OF nt] have "s1 = s0" .
  with step.IH show ?case by (simp add: y z)
qed

lemma next_token_lookup:
  "generate_next_token wc lt self g =
     (case map_of (transitions self) lt of
        None \<Rightarrow> (Inl UnknownHistoryKey, self, g)
      | Some items \<Rightarrow>
          (case wc g items of
             (None, g') \<Rightarrow> (Inl EmptyDistribution, self, g')
           | (Some t, g') \<Rightarrow> (Inr t, self, g')))"
  by (cases "map_of (transitions self) lt") (simp_all add: next_token_absent next_token_present)

lemma step_absent:
  assumes "lt \<noteq> []" and "last lt \<noteq> end_symbol self" and "map_of (transitions self) lt = None"
  shows "text_generator_step (generate_next_token wc) emit ml ((lt, le, gs), self, g)
           = Inl (Inl UnknownHistoryKey, self, g)"
  using assms by (simp add: text_generator_step_def next_token_absent)

text \<open>
  Claim C4. At every configuration the loop of \<^verbatim>\<open>generate_text\<close> reaches and whose
  history buffer does not end in the end sentinel, the buffer has exactly \<open>order\<close> entries
  and the next token is obtained by looking up the whole buffer as the key of the
  transition table. If that key is absent, the pass ends the loop with
  \<^verbatim>\<open>UnknownHistoryKey\<close> and so does the call: no sequence is returned, and the model is
  unchanged.
\<close>

theorem unknown_history_key_is_fatal:
  assumes reach: "rtranclp (continues (generate_next_token wc) markovian_emit ml)
                    (initial_state self, self, g) ((lt, le, gs), self', g')"
    and ne: "lt \<noteq> []" and cont: "last lt \<noteq> end_symbol self"
  shows "self' = self \<and> length lt = nat (order self)
    \<and> generate_next_token wc lt self g' =
        (case map_of (transitions self) lt of
           None \<Rightarrow> (Inl UnknownHistoryKey, self, g')
         | Some items \<Rightarrow>
             (case wc g' items of
                (None, g'') \<Rightarrow> (Inl EmptyDistribution, self, g'')
              | (Some t, g'') \<Rightarrow> (Inr t, self, g'')))
    \<and> (map_of (transitions self) lt = None \<longrightarrow>
         text_generator_step (generate_next_token wc) markovian_emit ml ((lt, le, gs), self', g')
           = Inl (Inl UnknownHistoryKey, self, g')
         \<and> generate_text wc ml self g = Some (Inl UnknownHistoryKey, self, g'))"
proof -
  from reach_frame [OF reach] have s: "self' = self" and len: "length lt = nat (order self)"
    by (simp_all add: initial_state_def Let_def)
  have fatal: "generate_text wc ml self g = Some (Inl UnknownHistoryKey, self, g')"
    and stp: "text_generator_step (generate_next_token wc) markovian_emit ml ((lt, le, gs), self', g')
           = Inl (Inl UnknownHistoryKey, self, g')"
    if absent: "map_of (transitions self) lt = None"
  proof -
    from step_absent [OF ne cont absent]
    show st: "text_generator_step (generate_next_token wc) markovian_emit ml ((lt, le, gs), self', g')
        = Inl (Inl UnknownHistoryKey, self, g')"
      by (simp add: s)
    from loop_reach [OF reach] loop_Inl [OF st]
    have "text_generator_loop (generate_next_token wc) markovian_emit ml (initial_state self, self, g)
        = Some (Inl UnknownHistoryKey, self, g')"
      by simp
    then show "generate_text wc ml self g = Some (Inl UnknownHistoryKey, self, g')"
      by (simp add: generate_text_def text_generator_Some)
  qed
  from s len fatal stp show ?thesis by (simp add: next_token_lookup)
qed

lemma empty_model_facts:
  "initial_state empty_model = ([''^''], [''^''], [])"
  "end_symbol empty_model = ''$''"
  "transitions empty_model = []"
  "order empty_model = 1"
  by (simp_all add: initial_state_def empty_model_def compute_transitions_def Markov_new_def
      prefilled_buffer_def count_corpus_def compute_relative_probs_def)

theorem unknown_history_key_is_fatal_witness:
  "rtranclp (continues (generate_next_token choose_first) markovian_emit None)
     (initial_state empty_model, empty_model, ()) (([''^''], [''^''], []), empty_model, ())
   \<and> map_of (transitions empty_model) [''^''] = None
   \<and> length [''^''] = nat (order empty_model)
   \<and> generate_next_token choose_first [''^''] empty_model () = (Inl UnknownHistoryKey, empty_model, ())
   \<and> generate_text choose_first None empty_model () = Some (Inl UnknownHistoryKey, empty_model, ())"
proof -
  have r: "rtranclp (continues (generate_next_token choose_first) markovian_emit None)
     (initial_state empty_model, empty_model, ()) (([''^''], [''^''], []), empty_model, ())"
    by (simp add: empty_model_facts)
  have a: "map_of (transitions empty_model) [''^''] = None" by (simp add: empty_model_facts)
  from unknown_history_key_is_fatal [OF r] r a show ?thesis
    by (simp add: empty_model_facts)
qed

end
